theory Spec2Isabelle
  imports Complex_Main
begin

section \<open>The element type \<open>math_t\<close>\<close>

text \<open>
  The operators of \<^verbatim>\<open>ml-prims/src/matrix/math.h\<close> are templates over a floating-point
  element type \<^verbatim>\<open>math_t\<close> (\<^verbatim>\<open>float\<close> or \<^verbatim>\<open>double\<close>). The model keeps the special values
  of IEEE 754 that decide the control flow of the operators: the two signed zeros, the
  two infinities and NaN. A finite non-zero number is an exact real, so rounding,
  overflow and underflow of finite results are outside the model. \<open>Fin 0\<close> is \<open>+0.0\<close>
  and \<open>NegZero\<close> is \<open>-0.0\<close>.
\<close>

datatype math_t = Fin real | NegZero | PInf | NInf | NaN

fun rv :: "math_t \<Rightarrow> real" where
  "rv (Fin x) = x"
| "rv NegZero = 0"
| "rv PInf = 0"
| "rv NInf = 0"
| "rv NaN = 0"

fun lvl :: "math_t \<Rightarrow> int" where
  "lvl (Fin x) = 0"
| "lvl NegZero = 0"
| "lvl PInf = 1"
| "lvl NInf = - 1"
| "lvl NaN = 0"

fun signbit :: "math_t \<Rightarrow> bool" where
  "signbit (Fin x) = (x < 0)"
| "signbit NegZero = True"
| "signbit PInf = False"
| "signbit NInf = True"
| "signbit NaN = False"

definition is_zero :: "math_t \<Rightarrow> bool" where
  "is_zero a = (a = Fin 0 \<or> a = NegZero)"

definition is_inf :: "math_t \<Rightarrow> bool" where
  "is_inf a = (a = PInf \<or> a = NInf)"

definition signed_zero :: "bool \<Rightarrow> math_t" where
  "signed_zero neg = (if neg then NegZero else Fin 0)"

definition signed_inf :: "bool \<Rightarrow> math_t" where
  "signed_inf neg = (if neg then NInf else PInf)"

text \<open>
  The comparisons \<^verbatim>\<open><\<close>, \<^verbatim>\<open><=\<close>, \<^verbatim>\<open>>\<close>, \<^verbatim>\<open>==\<close> and \<^verbatim>\<open>!=\<close>: NaN is unordered (every
  comparison with it is false, except \<^verbatim>\<open>!=\<close>), the two zeros compare equal, and the
  infinities lie below and above every finite number.
\<close>

definition flt :: "math_t \<Rightarrow> math_t \<Rightarrow> bool" where
  "flt a b = (a \<noteq> NaN \<and> b \<noteq> NaN \<and> (lvl a < lvl b \<or> (lvl a = lvl b \<and> rv a < rv b)))"

definition fle :: "math_t \<Rightarrow> math_t \<Rightarrow> bool" where
  "fle a b = (a \<noteq> NaN \<and> b \<noteq> NaN \<and> (lvl a < lvl b \<or> (lvl a = lvl b \<and> rv a \<le> rv b)))"

definition fgt :: "math_t \<Rightarrow> math_t \<Rightarrow> bool" where
  "fgt a b = flt b a"

definition feq :: "math_t \<Rightarrow> math_t \<Rightarrow> bool" where
  "feq a b = (a \<noteq> NaN \<and> b \<noteq> NaN \<and> lvl a = lvl b \<and> rv a = rv b)"

definition fne :: "math_t \<Rightarrow> math_t \<Rightarrow> bool" where
  "fne a b = (\<not> feq a b)"

text \<open>Unary minus flips the sign, also of a zero.\<close>

fun fneg :: "math_t \<Rightarrow> math_t" where
  "fneg (Fin x) = (if x = 0 then NegZero else Fin (- x))"
| "fneg NegZero = Fin 0"
| "fneg PInf = NInf"
| "fneg NInf = PInf"
| "fneg NaN = NaN"

text \<open>
  Addition and division with the IEEE results on the special values: \<open>inf - inf\<close>,
  \<open>0 / 0\<close> and \<open>inf / inf\<close> are NaN, a non-zero number over a zero is an infinity,
  and the sign of a quotient is the exclusive or of the operands' signs.
\<close>

definition fadd :: "math_t \<Rightarrow> math_t \<Rightarrow> math_t" where
  "fadd a b =
     (if a = NaN \<or> b = NaN then NaN
      else if is_inf a then (if is_inf b \<and> a \<noteq> b then NaN else a)
      else if is_inf b then b
      else if a = NegZero \<and> b = NegZero then NegZero
      else Fin (rv a + rv b))"

definition fdiv :: "math_t \<Rightarrow> math_t \<Rightarrow> math_t" where
  "fdiv a b =
     (if a = NaN \<or> b = NaN then NaN
      else if is_inf a then (if is_inf b then NaN else signed_inf (signbit a \<noteq> signbit b))
      else if is_inf b then signed_zero (signbit a \<noteq> signbit b)
      else if is_zero b then (if is_zero a then NaN else signed_inf (signbit a \<noteq> signbit b))
      else if is_zero a then signed_zero (signbit a \<noteq> signbit b)
      else Fin (rv a / rv b))"

section \<open>Buffers and the parallel-apply engine\<close>

text \<open>
  A device buffer is the list of its elements; a pointer parameter is the buffer it
  points to, and an operator returns the buffer it has written. The source checks no
  bounds: reading or writing past a buffer is undefined behaviour, so the theorems
  below assume that every buffer is at least as long as the length passed with it.
  The \<^verbatim>\<open>int\<close> lengths are natural numbers here (no negative length, no overflow of
  an index).

  \<^verbatim>\<open>thrust::for_each(counting, counting + n, body)\<close> runs the body once for every index
  \<open>0 \<le> idx < n\<close>, with no order promised between the bodies. The model runs the bodies
  one after the other, in index order. The bodies of the elementwise operators touch
  only their own position, so every order gives their result (\<open>fold_pointwise_order\<close>
  below); the bodies of \<open>signFlip\<close> are looked at in other orders too.
\<close>

definition for_each :: "nat \<Rightarrow> (nat \<Rightarrow> 's \<Rightarrow> 's) \<Rightarrow> 's \<Rightarrow> 's" where
  "for_each n body s = fold body [0..<n] s"

section \<open>The reciprocal overloads\<close>

text \<open>
  Lines 175--194: \<^verbatim>\<open>reciprocal(inout, scalar, len, setzero = false, thres = 1e-15)\<close>.
\<close>

definition reciprocal :: "math_t list \<Rightarrow> math_t \<Rightarrow> nat \<Rightarrow> bool \<Rightarrow> math_t \<Rightarrow> math_t list" where
  "reciprocal inout scalar len setzero thres =
     for_each len (\<lambda>idx d_A.
       if setzero then
         (if fle (d_A ! idx) thres then d_A[idx := Fin 0]
          else d_A[idx := fdiv scalar (d_A ! idx)])
       else d_A[idx := fdiv scalar (d_A ! idx)]) inout"

text \<open>The default arguments \<^verbatim>\<open>setzero = false\<close> and \<^verbatim>\<open>thres = 1e-15\<close>.\<close>

definition default_setzero :: bool where
  "default_setzero = False"

definition default_thres :: math_t where
  "default_thres = Fin (1 / 10 ^ 15)"

text \<open>
  Lines 240--251: \<^verbatim>\<open>reciprocal(in, out, scalar, len)\<close>, returning the buffer \<^verbatim>\<open>out\<close>.
\<close>

definition reciprocal_out :: "math_t list \<Rightarrow> math_t list \<Rightarrow> math_t \<Rightarrow> nat \<Rightarrow> math_t list" where
  "reciprocal_out d_src out scalar len =
     for_each len (\<lambda>idx d_dest. d_dest[idx := fdiv scalar (d_src ! idx)]) out"

text \<open>
  Lines 259--263: \<^verbatim>\<open>reciprocal(inout, len, setzero = false, thres = 1e-15)\<close>. Its body
  is the call \<^verbatim>\<open>reciprocal(inout, scalar, len)\<close> with three arguments, which resolves to
  the overload of line 176 with that overload's default \<^verbatim>\<open>setzero\<close> and \<^verbatim>\<open>thres\<close>; the
  parameters \<^verbatim>\<open>setzero\<close> and \<^verbatim>\<open>thres\<close> of this overload are not passed on.
\<close>

definition reciprocal_unit :: "math_t list \<Rightarrow> nat \<Rightarrow> bool \<Rightarrow> math_t \<Rightarrow> math_t list" where
  "reciprocal_unit inout len setzero thres =
     (let scalar = Fin 1 in reciprocal inout scalar len default_setzero default_thres)"

text \<open>Lines 272--276: \<^verbatim>\<open>reciprocal(in, out, len)\<close>.\<close>

definition reciprocal_out_unit :: "math_t list \<Rightarrow> math_t list \<Rightarrow> nat \<Rightarrow> math_t list" where
  "reciprocal_out_unit d_src out len =
     (let scalar = Fin 1 in reciprocal_out d_src out scalar len)"

section \<open>setSmallValuesZero\<close>

text \<open>
  Lines 203--217: \<^verbatim>\<open>setSmallValuesZero(inout, len, thres = 1e-15)\<close>. The comparison is
  \<^verbatim>\<open>d_A[idx] <= thres\<close> on the signed value; the \<^verbatim>\<open>else\<close> branch stores the element
  back.
\<close>

definition setSmallValuesZero :: "math_t list \<Rightarrow> nat \<Rightarrow> math_t \<Rightarrow> math_t list" where
  "setSmallValuesZero inout len thres =
     for_each len (\<lambda>idx d_A.
       if fle (d_A ! idx) thres then d_A[idx := Fin 0]
       else d_A[idx := d_A ! idx]) inout"

section \<open>The broadcast-apply engine and its callers\<close>

text \<open>
  \<^verbatim>\<open>matrixVectorOp\<close> is declared in \<^verbatim>\<open>linalg/matrix_vector_op.h\<close>, which is not among
  the source files. Its callers take it as the parameter \<open>mvop\<close>: a function from the
  matrix buffer, the vector buffer, the two dimensions, the row-major flag and the
  combining function to the matrix buffer it has written.
\<close>

type_synonym binop = "math_t \<Rightarrow> math_t \<Rightarrow> math_t"

type_synonym engine = "math_t list \<Rightarrow> math_t list \<Rightarrow> nat \<Rightarrow> nat \<Rightarrow> bool \<Rightarrow> binop \<Rightarrow> math_t list"

text \<open>
  Modelled from the spec: \<^verbatim>\<open>matrixVectorOp\<close>, the broadcast-apply engine. By section 6
  of the specification it is given a matrix buffer, a vector buffer, row count, column
  count, the row-major flag and a binary combining function; for every matrix element
  it computes the corresponding vector index per the layout flag and writes the
  combined result \<open>op matrixElement vectorElement\<close> back into the matrix buffer in
  place. The specification does not give the index computation, so it is the parameter
  \<open>vidx\<close> (from the dimensions \<open>D\<close> and \<open>N\<close>, the flag and the position of the matrix
  element to the position in the vector).
\<close>

definition matrixVectorOp :: "(nat \<Rightarrow> nat \<Rightarrow> bool \<Rightarrow> nat \<Rightarrow> nat) \<Rightarrow> engine" where
  "matrixVectorOp vidx matrix vec D N rowMajor op =
     for_each (N * D) (\<lambda>idx m. m[idx := op (m ! idx) (vec ! vidx D N rowMajor idx)]) matrix"

text \<open>
  Lines 219--230: \<^verbatim>\<open>setSmallValuesZero(inout, vec, n_row, n_col, thres)\<close>. The body never
  mentions \<^verbatim>\<open>thres\<close>; the flag passed to the engine is the literal \<^verbatim>\<open>false\<close>.
\<close>

definition setSmallValuesZero_vec ::
  "engine \<Rightarrow> math_t list \<Rightarrow> math_t list \<Rightarrow> nat \<Rightarrow> nat \<Rightarrow> math_t \<Rightarrow> math_t list" where
  "setSmallValuesZero_vec mvop inout vec n_row n_col thres =
     mvop inout vec n_col n_row False
       (\<lambda>a b. if flt b (Fin (1 / 10 ^ 10)) then Fin 0 else a)"

text \<open>
  Lines 375--395:
  \<^verbatim>\<open>matrixVectorBinaryDivSkipZero(data, vec, n_row, n_col, rowMajor, return_zero = false)\<close>.
\<close>

definition matrixVectorBinaryDivSkipZero ::
  "engine \<Rightarrow> math_t list \<Rightarrow> math_t list \<Rightarrow> nat \<Rightarrow> nat \<Rightarrow> bool \<Rightarrow> bool \<Rightarrow> math_t list" where
  "matrixVectorBinaryDivSkipZero mvop data vec n_row n_col rowMajor return_zero =
     (if return_zero then
        mvop data vec n_col n_row rowMajor
          (\<lambda>a b. if flt b (Fin (1 / 10 ^ 10)) then Fin 0 else fdiv a b)
      else
        mvop data vec n_col n_row rowMajor
          (\<lambda>a b. if flt b (Fin (1 / 10 ^ 10)) then a else fdiv a b))"

section \<open>ratio\<close>

text \<open>
  Lines 288--306: \<^verbatim>\<open>ratio(src, dest, len)\<close>, for a \<^verbatim>\<open>dest\<close> that is a buffer of its own
  (the body reads \<^verbatim>\<open>src\<close> only and writes \<^verbatim>\<open>dest\<close> only); it returns \<^verbatim>\<open>dest\<close>. Every
  index runs the summation loop again, \<open>ratio_total\<close>.
\<close>

definition ratio_total :: "math_t list \<Rightarrow> nat \<Rightarrow> math_t" where
  "ratio_total d_src s = fold (\<lambda>i total. fadd total (d_src ! i)) [0..<s] (Fin 0)"

definition ratio :: "math_t list \<Rightarrow> math_t list \<Rightarrow> nat \<Rightarrow> math_t list" where
  "ratio src dest len =
     for_each len (\<lambda>idx d_dest.
       let total = ratio_total src len in
       if fne total (Fin 0) then d_dest[idx := fdiv (src ! idx) total] else d_dest) dest"

section \<open>signFlip\<close>

text \<open>
  Lines 316--346: \<^verbatim>\<open>signFlip(inout, n_rows, n_cols)\<close>. The body of column \<open>idx\<close> is
  \<open>signFlip_col\<close>: the scan for the running maximum (\<open>mx\<close> is the variable \<^verbatim>\<open>max\<close>,
  \<open>end_i\<close> the variable \<^verbatim>\<open>end\<close>, \<open>val0\<close> the variable \<^verbatim>\<open>val\<close> before line 330), which
  starts at \<open>(0.0, 0)\<close>, then the test of \<^verbatim>\<open>inout[max_index]\<close> and the negation loop.
\<close>

definition signFlip_scan_body :: "math_t list \<Rightarrow> nat \<Rightarrow> math_t \<times> nat \<Rightarrow> math_t \<times> nat" where
  "signFlip_scan_body inout =
     (\<lambda>i (mx, max_index).
       let val0 = inout ! i;
           val = (if flt val0 (Fin 0) then fneg val0 else val0)
       in if fgt val mx then (val, i) else (mx, max_index))"

definition signFlip_scan :: "math_t list \<Rightarrow> nat \<Rightarrow> nat \<Rightarrow> math_t \<times> nat" where
  "signFlip_scan inout d_i end_i = fold (signFlip_scan_body inout) [d_i..<end_i] (Fin 0, 0)"

definition signFlip_negate :: "math_t list \<Rightarrow> nat \<Rightarrow> nat \<Rightarrow> math_t list" where
  "signFlip_negate inout d_i end_i = fold (\<lambda>i b. b[i := fneg (b ! i)]) [d_i..<end_i] inout"

definition signFlip_col :: "math_t list \<Rightarrow> nat \<Rightarrow> nat \<Rightarrow> math_t list" where
  "signFlip_col inout m idx =
     (let d_i = idx * m;
          end_i = d_i + m;
          max_index = snd (signFlip_scan inout d_i end_i)
      in if flt (inout ! max_index) (Fin 0) then signFlip_negate inout d_i end_i else inout)"

definition signFlip :: "math_t list \<Rightarrow> nat \<Rightarrow> nat \<Rightarrow> math_t list" where
  "signFlip inout n_rows n_cols =
     (let m = n_rows in for_each n_cols (\<lambda>idx b. signFlip_col b m idx) inout)"

text \<open>
  The engine promises no order between the bodies, and a body of \<open>signFlip\<close> may read
  \<^verbatim>\<open>inout[0]\<close>, which the body of column 0 may write. \<open>signFlip_order\<close> runs the column
  bodies in a given order; \<open>signFlip\<close> is the order \<open>0, 1, \<dots>, n_cols - 1\<close>.
\<close>

definition signFlip_order :: "nat list \<Rightarrow> math_t list \<Rightarrow> nat \<Rightarrow> math_t list" where
  "signFlip_order order inout n_rows = fold (\<lambda>idx b. signFlip_col b n_rows idx) order inout"

section \<open>Notions used in the statements\<close>

text \<open>
  The positions of column \<open>idx\<close> of a column-major matrix with \<open>m\<close> rows, the absolute
  value as the scan of \<open>signFlip\<close> computes it (lines 329--332), and the invariant of
  the scan after the positions \<open>d_i, \<dots>, j - 1\<close>: the running maximum is not negative
  and bounds every absolute value seen, and once it is positive \<open>max_index\<close> is the
  first position that reaches it.
\<close>

definition in_col :: "nat \<Rightarrow> nat \<Rightarrow> nat \<Rightarrow> bool" where
  "in_col m idx i = (idx * m \<le> i \<and> i < idx * m + m)"

definition abs_val :: "math_t \<Rightarrow> math_t" where
  "abs_val v = (if flt v (Fin 0) then fneg v else v)"

definition scan_inv :: "math_t list \<Rightarrow> nat \<Rightarrow> nat \<Rightarrow> math_t \<times> nat \<Rightarrow> bool" where
  "scan_inv inout d_i j r =
     (fle (Fin 0) (fst r)
      \<and> (\<forall>i. d_i \<le> i \<and> i < j \<longrightarrow> fle (abs_val (inout ! i)) (fst r))
      \<and> (if flt (Fin 0) (fst r)
         then d_i \<le> snd r \<and> snd r < j \<and> abs_val (inout ! snd r) = fst r
              \<and> (\<forall>i. d_i \<le> i \<and> i < snd r \<longrightarrow> flt (abs_val (inout ! i)) (fst r))
         else r = (Fin 0, 0)))"

text \<open>
  Position \<open>k\<close> holds the earliest element of largest absolute value of column \<open>c\<close>.
\<close>

definition first_max_abs :: "math_t list \<Rightarrow> nat \<Rightarrow> nat \<Rightarrow> nat \<Rightarrow> bool" where
  "first_max_abs inout m c k =
     (in_col m c k
      \<and> (\<forall>i. in_col m c i \<longrightarrow> fle (abs_val (inout ! i)) (abs_val (inout ! k)))
      \<and> (\<forall>i. in_col m c i \<and> i < k \<longrightarrow> flt (abs_val (inout ! i)) (abs_val (inout ! k))))"

section \<open>Evaluation on concrete buffers\<close>

lemma for_each_0: "for_each 0 body s = s"
  by (simp add: for_each_def)

lemma for_each_1: "for_each 1 body s = body 0 s"
  by (simp add: for_each_def)

lemma for_each_Suc: "for_each (Suc n) body s = body n (for_each n body s)"
  by (simp add: for_each_def)

lemma for_each_numeral:
  "for_each (numeral k) body s = body (pred_numeral k) (for_each (pred_numeral k) body s)"
  by (simp add: numeral_eq_Suc for_each_Suc)

lemmas for_each_eval = for_each_0 for_each_1 for_each_Suc for_each_numeral

lemma flt_Fin: "flt (Fin x) (Fin y) = (x < y)"
  by (simp add: flt_def)

lemma flt_NegZero_Fin: "flt NegZero (Fin y) = (0 < y)"
  by (simp add: flt_def)

lemma flt_Fin_NegZero: "flt (Fin x) NegZero = (x < 0)"
  by (simp add: flt_def)

lemma fle_Fin: "fle (Fin x) (Fin y) = (x \<le> y)"
  by (simp add: fle_def)

lemma fle_NegZero_Fin: "fle NegZero (Fin y) = (0 \<le> y)"
  by (simp add: fle_def)

lemma fne_Fin: "fne (Fin x) (Fin y) = (x \<noteq> y)"
  by (simp add: fne_def feq_def)

lemma fadd_Fin: "fadd (Fin x) (Fin y) = Fin (x + y)"
  by (simp add: fadd_def is_inf_def)

lemma fdiv_Fin: "x \<noteq> 0 \<Longrightarrow> y \<noteq> 0 \<Longrightarrow> fdiv (Fin x) (Fin y) = Fin (x / y)"
  by (simp add: fdiv_def is_inf_def is_zero_def)

lemma fdiv_Fin_zero: "x \<noteq> 0 \<Longrightarrow> fdiv (Fin x) (Fin 0) = (if x < 0 then NInf else PInf)"
  by (simp add: fdiv_def is_inf_def is_zero_def signed_inf_def)

lemmas float_simps = flt_Fin flt_NegZero_Fin flt_Fin_NegZero fle_Fin fle_NegZero_Fin
  fne_Fin fadd_Fin fdiv_Fin fdiv_Fin_zero fgt_def

lemma list_update_numeral: "(x # xs)[numeral k := y] = x # xs[pred_numeral k := y]"
  by (simp add: numeral_eq_Suc)

lemma upt_eval: "[i..<j] = (if i < j then i # [Suc i..<j] else [])"
  by (rule upt_rec)

lemmas list_eval = list_update_numeral upt_eval

section \<open>Bodies that write one element from its old value\<close>

text \<open>
  Every elementwise operator runs a body that writes position \<open>i\<close> from the old value
  at position \<open>i\<close>. Over distinct indices such a loop changes exactly the positions it
  visits, each once.
\<close>

lemma fold_pointwise_length:
  assumes "\<And>i s. length (body i s) = length s"
  shows "length (fold body ixs s) = length s"
  using assms by (induction ixs arbitrary: s) simp_all

lemma fold_pointwise_nth:
  assumes body: "\<And>i s. body i s = s[i := g i (s ! i)]"
    and "distinct ixs" and "j < length s"
  shows "fold body ixs s ! j = (if j \<in> set ixs then g j (s ! j) else s ! j)"
  using assms(2,3)
proof (induction ixs arbitrary: s)
  case Nil
  then show ?case by simp
next
  case (Cons a ixs)
  have len: "j < length (body a s)" using Cons.prems by (simp add: body)
  have "fold body (a # ixs) s ! j = fold body ixs (body a s) ! j" by simp
  also have "\<dots> = (if j \<in> set ixs then g j (body a s ! j) else body a s ! j)"
    using Cons.IH [OF _ len] Cons.prems by simp
  also have "\<dots> = (if j \<in> set (a # ixs) then g j (s ! j) else s ! j)"
  proof (cases "j \<in> set ixs")
    case True
    with Cons.prems have "a \<noteq> j" by auto
    with True show ?thesis by (simp add: body)
  next
    case False
    with Cons.prems show ?thesis by (simp add: body nth_list_update)
  qed
  finally show ?case .
qed

lemma for_each_length:
  assumes "\<And>i s. length (body i s) = length s"
  shows "length (for_each n body s) = length s"
  unfolding for_each_def using assms by (rule fold_pointwise_length)

lemma for_each_nth:
  assumes "\<And>i s. body i s = s[i := g i (s ! i)]" and "j < length s"
  shows "for_each n body s ! j = (if j < n then g j (s ! j) else s ! j)"
  unfolding for_each_def using fold_pointwise_nth [OF assms(1) _ assms(2), of "[0..<n]"] by simp

text \<open>
  Such bodies may run in any order: every order of the indices \<open>0, \<dots>, n - 1\<close> gives
  the result of \<open>for_each\<close>.
\<close>

lemma fold_pointwise_order:
  assumes body: "\<And>i s. body i s = s[i := g i (s ! i)]"
    and "distinct ixs" and "set ixs = {0..<n}"
  shows "fold body ixs s = for_each n body s"
proof (rule nth_equalityI)
  have len: "\<And>i s. length (body i s) = length s" by (simp add: body)
  show "length (fold body ixs s) = length (for_each n body s)"
    by (simp add: fold_pointwise_length [OF len] for_each_length [OF len])
  fix j assume "j < length (fold body ixs s)"
  then have "j < length s" by (simp add: fold_pointwise_length [OF len])
  then show "fold body ixs s ! j = for_each n body s ! j"
    using assms(2,3) by (simp add: fold_pointwise_nth [OF body] for_each_nth [OF body])
qed

section \<open>reciprocal\<close>

lemma reciprocal_length: "length (reciprocal inout scalar len setzero thres) = length inout"
  unfolding reciprocal_def by (rule for_each_length) simp

lemma reciprocal_nth:
  assumes "i < length inout"
  shows "reciprocal inout scalar len setzero thres ! i =
    (if i < len then
       (if setzero \<and> fle (inout ! i) thres then Fin 0 else fdiv scalar (inout ! i))
     else inout ! i)"
  unfolding reciprocal_def
  by (subst for_each_nth [where g = "\<lambda>i x. if setzero \<and> fle x thres then Fin 0 else fdiv scalar x"])
     (use assms in auto)

lemma reciprocal_out_length: "length (reciprocal_out d_src out scalar len) = length out"
  unfolding reciprocal_out_def by (rule for_each_length) simp

lemma reciprocal_out_nth:
  assumes "i < length out"
  shows "reciprocal_out d_src out scalar len ! i =
    (if i < len then fdiv scalar (d_src ! i) else out ! i)"
  unfolding reciprocal_out_def
  by (subst for_each_nth [where g = "\<lambda>i x. fdiv scalar (d_src ! i)"]) (use assms in auto)

lemma reciprocal_unit_unguarded:
  "reciprocal_unit inout len setzero thres = reciprocal inout (Fin 1) len False (Fin (1 / 10 ^ 15))"
  by (simp add: reciprocal_unit_def default_setzero_def default_thres_def)

lemma reciprocal_out_unit_delegates:
  "reciprocal_out_unit d_src out len = reciprocal_out d_src out (Fin 1) len"
  by (simp add: reciprocal_out_unit_def)

text \<open>
  Claim C1 says that \<^verbatim>\<open>reciprocal(inout, len, setzero, thres)\<close> gives the result of
  \<^verbatim>\<open>reciprocal(inout, 1, len, setzero, thres)\<close>, zero-guard included. On the one-element
  buffer \<open>[-2]\<close> with \<open>setzero = true\<close> and \<open>thres = 1e-15\<close> the two differ: the
  scalar-taking form writes \<open>0\<close> (since \<open>-2 \<le> thres\<close>), the scalar-omitted overload
  writes \<open>1 / -2\<close>, because it does not pass its \<open>setzero\<close> and \<open>thres\<close> on.
\<close>

theorem reciprocal_unit_drops_guard:
  "reciprocal_unit [Fin (- 2)] 1 True (Fin (1 / 10 ^ 15)) = [Fin (- (1 / 2))]
   \<and> reciprocal [Fin (- 2)] (Fin 1) 1 True (Fin (1 / 10 ^ 15)) = [Fin 0]"
  by (simp add: reciprocal_unit_unguarded reciprocal_def for_each_eval float_simps)

text \<open>
  Claim C5: the in-place \<^verbatim>\<open>reciprocal\<close> with \<open>setZero\<close> true maps every element \<open>x\<close>
  with \<open>x \<le> thres\<close> to \<open>0\<close> and every other element to \<open>scalar / x\<close>; with \<open>setZero\<close>
  false it maps every element to \<open>scalar / x\<close>; the two-buffer overload has no
  zero-guard and writes \<open>scalar / x\<close> for every element, a zero included. The elements
  are those at the positions \<open>i < len\<close> of buffers that hold at least \<open>len\<close> elements.
\<close>

theorem reciprocal_zero_guard:
  assumes "i < len" and "len \<le> length inout" and "len \<le> length d_src" and "len \<le> length out"
  shows "reciprocal inout scalar len True thres ! i =
           (if fle (inout ! i) thres then Fin 0 else fdiv scalar (inout ! i))
       \<and> reciprocal inout scalar len False thres ! i = fdiv scalar (inout ! i)
       \<and> reciprocal_out d_src out scalar len ! i = fdiv scalar (d_src ! i)"
  using assms by (simp add: reciprocal_nth reciprocal_out_nth)

theorem reciprocal_zero_guard_witness:
  "(1::nat) < 3 \<and> 3 \<le> length [Fin 2, Fin 0, Fin (- 4)] \<and> 3 \<le> length [Fin 7, Fin 7, Fin 7]
   \<and> reciprocal [Fin 2, Fin 0, Fin (- 4)] (Fin 1) 3 True (Fin (1 / 10 ^ 15)) ! 1 = Fin 0
   \<and> reciprocal [Fin 2, Fin 0, Fin (- 4)] (Fin 1) 3 False (Fin (1 / 10 ^ 15)) ! 1 = PInf
   \<and> reciprocal_out [Fin 2, Fin 0, Fin (- 4)] [Fin 7, Fin 7, Fin 7] (Fin 1) 3 ! 1 = PInf"
  using reciprocal_zero_guard [of 1 3 "[Fin 2, Fin 0, Fin (- 4)]" "[Fin 2, Fin 0, Fin (- 4)]"
      "[Fin 7, Fin 7, Fin 7]" "Fin 1" "Fin (1 / 10 ^ 15)"]
  by (simp add: float_simps)

section \<open>setSmallValuesZero on a buffer\<close>

lemma setSmallValuesZero_length: "length (setSmallValuesZero inout len thres) = length inout"
  unfolding setSmallValuesZero_def by (rule for_each_length) simp

lemma setSmallValuesZero_nth:
  assumes "i < length inout"
  shows "setSmallValuesZero inout len thres ! i =
    (if i < len then (if fle (inout ! i) thres then Fin 0 else inout ! i) else inout ! i)"
  unfolding setSmallValuesZero_def
  by (subst for_each_nth [where g = "\<lambda>i x. if fle x thres then Fin 0 else x"])
     (use assms in auto)

lemma setSmallValuesZero_idem:
  "setSmallValuesZero (setSmallValuesZero inout len thres) len thres =
   setSmallValuesZero inout len thres"
  by (rule nth_equalityI) (simp_all add: setSmallValuesZero_length setSmallValuesZero_nth)

text \<open>
  Claim C6, as amended: \<^verbatim>\<open>setSmallValuesZero\<close> compares the signed value of an element
  with the threshold, not its magnitude. For every element \<open>x\<close> (at a position
  \<open>i < len\<close>) the result is \<open>0\<close> when \<open>x \<le> thres\<close> and \<open>x\<close> itself otherwise; an
  element of large negative magnitude is therefore set to \<open>0\<close>.
\<close>

theorem setSmallValuesZero_signed:
  assumes "i < len" and "len \<le> length inout"
  shows "setSmallValuesZero inout len thres ! i =
           (if fle (inout ! i) thres then Fin 0 else inout ! i)"
  using assms by (simp add: setSmallValuesZero_nth)

theorem setSmallValuesZero_signed_witness:
  "(0::nat) < 2 \<and> 2 \<le> length [Fin (- 100), Fin 3]
   \<and> setSmallValuesZero [Fin (- 100), Fin 3] 2 (Fin (1 / 10 ^ 15)) ! 0 = Fin 0"
  using setSmallValuesZero_signed [of 0 2 "[Fin (- 100), Fin 3]" "Fin (1 / 10 ^ 15)"]
  by (simp add: float_simps)

text \<open>
  Claim C6 as stated fails: for \<open>x = -100\<close> and \<open>thres = 1e-15\<close> the magnitude \<open>100\<close>
  is above the threshold, and the element does not stay \<open>-100\<close>.
\<close>

theorem setSmallValuesZero_magnitude_counterexample:
  "\<not> \<bar>- 100 :: real\<bar> \<le> 1 / 10 ^ 15
   \<and> setSmallValuesZero [Fin (- 100)] 1 (Fin (1 / 10 ^ 15)) ! 0 \<noteq> Fin (- 100)"
  by (simp add: setSmallValuesZero_def for_each_eval float_simps)

text \<open>
  Claim C7: \<^verbatim>\<open>setSmallValuesZero\<close> is idempotent. For every buffer, length and
  threshold \<open>thres \<ge> 0\<close>, applying it twice with the same threshold gives the buffer
  that applying it once gives. (\<open>setSmallValuesZero_idem\<close> shows that the bound on
  the threshold is not needed.)
\<close>

theorem setSmallValuesZero_idempotent:
  assumes "fle (Fin 0) thres"
  shows "setSmallValuesZero (setSmallValuesZero inout len thres) len thres =
         setSmallValuesZero inout len thres"
  by (rule setSmallValuesZero_idem)

theorem setSmallValuesZero_idempotent_witness:
  "fle (Fin 0) (Fin 1)
   \<and> setSmallValuesZero [Fin (- 3), Fin 2, NegZero, Fin (1 / 2)] 4 (Fin 1) = [Fin 0, Fin 2, Fin 0, Fin 0]
   \<and> setSmallValuesZero [Fin 0, Fin 2, Fin 0, Fin 0] 4 (Fin 1) = [Fin 0, Fin 2, Fin 0, Fin 0]"
proof -
  have t: "fle (Fin 0) (Fin 1)" by (simp add: float_simps)
  have e: "setSmallValuesZero [Fin (- 3), Fin 2, NegZero, Fin (1 / 2)] 4 (Fin 1) =
      [Fin 0, Fin 2, Fin 0, Fin 0]"
    by (simp add: setSmallValuesZero_def for_each_eval float_simps list_eval)
  from setSmallValuesZero_idempotent [OF t, of "[Fin (- 3), Fin 2, NegZero, Fin (1 / 2)]" 4]
  show ?thesis using t by (simp add: e)
qed

section \<open>The broadcast operators\<close>

lemma matrixVectorOp_length:
  "length (matrixVectorOp vidx matrix vec D N rowMajor op) = length matrix"
  unfolding matrixVectorOp_def by (rule for_each_length) simp

lemma matrixVectorOp_nth:
  assumes "idx < length matrix"
  shows "matrixVectorOp vidx matrix vec D N rowMajor op ! idx =
    (if idx < N * D then op (matrix ! idx) (vec ! vidx D N rowMajor idx) else matrix ! idx)"
  unfolding matrixVectorOp_def
  by (subst for_each_nth [where g = "\<lambda>i x. op x (vec ! vidx D N rowMajor i)"])
     (use assms in auto)

text \<open>
  Claim C8: for every matrix element \<open>a\<close> paired with the vector entry \<open>b\<close>,
  \<^verbatim>\<open>matrixVectorBinaryDivSkipZero\<close> writes, when \<open>b < 1e-10\<close>, \<open>0\<close> if \<open>returnZero\<close> is
  true and \<open>a\<close> unchanged if it is false, and \<open>a / b\<close> otherwise. In particular a
  vector entry equal to zero leaves its matrix elements unchanged when \<open>returnZero\<close>
  is false and sets them to \<open>0\<close> when it is true. The pairing is that of the engine
  \<open>matrixVectorOp vidx\<close>, for every index computation \<open>vidx\<close>.
\<close>

theorem matrixVectorBinaryDivSkipZero_rule:
  assumes "idx < n_row * n_col" and "n_row * n_col \<le> length data"
    and "vidx n_col n_row rowMajor idx < length vec"
  shows "matrixVectorBinaryDivSkipZero (matrixVectorOp vidx) data vec n_row n_col rowMajor
             return_zero ! idx =
           (let a = data ! idx; b = vec ! vidx n_col n_row rowMajor idx in
            if flt b (Fin (1 / 10 ^ 10)) then (if return_zero then Fin 0 else a) else fdiv a b)
       \<and> (is_zero (vec ! vidx n_col n_row rowMajor idx) \<longrightarrow>
            matrixVectorBinaryDivSkipZero (matrixVectorOp vidx) data vec n_row n_col rowMajor
                return_zero ! idx =
              (if return_zero then Fin 0 else data ! idx))"
  using assms
  by (auto simp: matrixVectorBinaryDivSkipZero_def matrixVectorOp_nth Let_def is_zero_def flt_def)

theorem matrixVectorBinaryDivSkipZero_rule_witness:
  "(0::nat) < 1 * 2 \<and> 1 * 2 \<le> length [Fin 6, Fin 8] \<and> is_zero ([Fin 0, Fin 2] ! (0 mod 2))
   \<and> matrixVectorBinaryDivSkipZero
        (matrixVectorOp (\<lambda>D N rowMajor idx. if rowMajor then idx mod D else idx div N))
        [Fin 6, Fin 8] [Fin 0, Fin 2] 1 2 True False ! 0 = Fin 6
   \<and> matrixVectorBinaryDivSkipZero
        (matrixVectorOp (\<lambda>D N rowMajor idx. if rowMajor then idx mod D else idx div N))
        [Fin 6, Fin 8] [Fin 0, Fin 2] 1 2 True True ! 0 = Fin 0
   \<and> matrixVectorBinaryDivSkipZero
        (matrixVectorOp (\<lambda>D N rowMajor idx. if rowMajor then idx mod D else idx div N))
        [Fin 6, Fin 8] [Fin 0, Fin 2] 1 2 True False ! 1 = Fin 4"
  using matrixVectorBinaryDivSkipZero_rule [of 0 1 2 "[Fin 6, Fin 8]"
      "\<lambda>D N rowMajor idx. if rowMajor then idx mod D else idx div N" True "[Fin 0, Fin 2]" False]
    matrixVectorBinaryDivSkipZero_rule [of 0 1 2 "[Fin 6, Fin 8]"
      "\<lambda>D N rowMajor idx. if rowMajor then idx mod D else idx div N" True "[Fin 0, Fin 2]" True]
    matrixVectorBinaryDivSkipZero_rule [of 1 1 2 "[Fin 6, Fin 8]"
      "\<lambda>D N rowMajor idx. if rowMajor then idx mod D else idx div N" True "[Fin 0, Fin 2]" False]
  by (simp add: float_simps is_zero_def)

text \<open>
  Claim C9: the matrix-vector form \<^verbatim>\<open>setSmallValuesZero(inout, vec, n_row, n_col, thres)\<close>
  does not depend on \<open>thres\<close>. For every engine, any two thresholds give the same
  result, which is the engine's result for the flag \<open>rowMajor = false\<close> and the rule
  that compares the vector entry with the constant \<open>1e-10\<close>.
\<close>

theorem setSmallValuesZero_vec_ignores_thres:
  "setSmallValuesZero_vec mvop inout vec n_row n_col t1 =
     setSmallValuesZero_vec mvop inout vec n_row n_col t2
   \<and> setSmallValuesZero_vec mvop inout vec n_row n_col t1 =
       mvop inout vec n_col n_row False (\<lambda>a b. if flt b (Fin (1 / 10 ^ 10)) then Fin 0 else a)"
  by (simp add: setSmallValuesZero_vec_def)

lemma setSmallValuesZero_vec_nth:
  assumes "idx < n_row * n_col" and "n_row * n_col \<le> length inout"
  shows "setSmallValuesZero_vec (matrixVectorOp vidx) inout vec n_row n_col thres ! idx =
     (if flt (vec ! vidx n_col n_row False idx) (Fin (1 / 10 ^ 10)) then Fin 0 else inout ! idx)"
  using assms by (simp add: setSmallValuesZero_vec_def matrixVectorOp_nth)

section \<open>ratio\<close>

lemma ratio_length: "length (ratio src dest len) = length dest"
  unfolding ratio_def by (rule for_each_length) (simp add: Let_def)

lemma ratio_zero_total:
  assumes "\<not> fne (ratio_total src len) (Fin 0)"
  shows "ratio src dest len = dest"
proof -
  have "fold (\<lambda>idx d_dest. d_dest) ixs dest = dest" for ixs :: "nat list"
    by (induction ixs) simp_all
  with assms show ?thesis by (simp add: ratio_def for_each_def)
qed

lemma ratio_nth:
  assumes "fne (ratio_total src len) (Fin 0)" and "i < length dest"
  shows "ratio src dest len ! i =
    (if i < len then fdiv (src ! i) (ratio_total src len) else dest ! i)"
  unfolding ratio_def
  by (subst for_each_nth [where g = "\<lambda>i x. fdiv (src ! i) (ratio_total src len)"])
     (use assms in \<open>auto simp: Let_def\<close>)

lemma ratio_total_take:
  assumes "s \<le> length d_src"
  shows "ratio_total d_src s = foldl fadd (Fin 0) (take s d_src)"
proof -
  have "map ((!) d_src) [0..<s] = take s d_src"
    using assms by (metis map_nth take_map take_upt add_0)
  moreover have "fold (\<lambda>i total. fadd total (d_src ! i)) ixs a = foldl fadd a (map ((!) d_src) ixs)"
    for ixs a
    by (induction ixs arbitrary: a) simp_all
  ultimately show ?thesis by (simp add: ratio_total_def)
qed

text \<open>
  Claim C3: for a source buffer of length \<open>len > 0\<close> and a destination buffer of its
  own, \<^verbatim>\<open>ratio(src, dst, len)\<close> sets \<open>dst[i] = src[i] / total\<close> for every index
  \<open>i < len\<close>, where \<open>total\<close> is the sum of \<open>src[0..len)\<close> (added up from the left,
  starting at \<open>0.0\<close>), the same for every index; when \<open>total\<close> is exactly zero no
  element is written and \<open>dst\<close> keeps its contents.
\<close>

theorem ratio_single_total:
  assumes "0 < len" and "len \<le> length src" and "len \<le> length dest"
  shows "ratio_total src len = foldl fadd (Fin 0) (take len src)
       \<and> ratio src dest len =
           (if fne (ratio_total src len) (Fin 0)
            then map (\<lambda>i. fdiv (src ! i) (ratio_total src len)) [0..<len] @ drop len dest
            else dest)"
proof (cases "fne (ratio_total src len) (Fin 0)")
  case True
  have "ratio src dest len =
      map (\<lambda>i. fdiv (src ! i) (ratio_total src len)) [0..<len] @ drop len dest"
    using assms True
    by (intro nth_equalityI) (auto simp: ratio_length ratio_nth nth_append)
  with True assms show ?thesis by (simp add: ratio_total_take)
next
  case False
  with assms show ?thesis by (simp add: ratio_zero_total ratio_total_take)
qed

theorem ratio_single_total_witness:
  "(0::nat) < 3 \<and> 3 \<le> length [Fin 1, Fin 2, Fin 5] \<and> 3 \<le> length [Fin 9, Fin 9, Fin 9, Fin 7]
   \<and> ratio [Fin 1, Fin 2, Fin 5] [Fin 9, Fin 9, Fin 9, Fin 7] 3 =
       [Fin (1 / 8), Fin (1 / 4), Fin (5 / 8), Fin 7]
   \<and> ratio [Fin 1, Fin (- 1), Fin 0] [Fin 9, Fin 9, Fin 9, Fin 7] 3 =
       [Fin 9, Fin 9, Fin 9, Fin 7]"
  using ratio_single_total [of 3 "[Fin 1, Fin 2, Fin 5]" "[Fin 9, Fin 9, Fin 9, Fin 7]"]
    ratio_single_total [of 3 "[Fin 1, Fin (- 1), Fin 0]" "[Fin 9, Fin 9, Fin 9, Fin 7]"]
  by (simp add: ratio_total_def float_simps list_eval)

section \<open>Comparisons and absolute values\<close>

lemma fle_refl: "a \<noteq> NaN \<Longrightarrow> fle a a"
  by (simp add: fle_def)

lemma fle_flt_trans: "fle a b \<Longrightarrow> flt b c \<Longrightarrow> flt a c"
  by (auto simp: fle_def flt_def)

lemma flt_imp_fle: "flt a b \<Longrightarrow> fle a b"
  by (auto simp: fle_def flt_def)

lemma not_flt_fle: "a \<noteq> NaN \<Longrightarrow> b \<noteq> NaN \<Longrightarrow> \<not> flt a b \<Longrightarrow> fle b a"
  by (auto simp: fle_def flt_def)

lemma abs_val_not_NaN: "x \<noteq> NaN \<Longrightarrow> abs_val x \<noteq> NaN"
  by (cases x) (auto simp: abs_val_def)

lemma abs_val_nonneg: "x \<noteq> NaN \<Longrightarrow> fle (Fin 0) (abs_val x)"
  by (cases x) (auto simp: abs_val_def fle_def flt_def)

lemma abs_val_pos: "x \<noteq> NaN \<Longrightarrow> \<not> is_zero x \<Longrightarrow> flt (Fin 0) (abs_val x)"
  by (cases x) (auto simp: abs_val_def flt_def is_zero_def)

lemma fneg_zero: "is_zero x \<Longrightarrow> is_zero (fneg x) \<and> fneg x \<noteq> x"
  by (auto simp: is_zero_def)

lemma fneg_not_NaN: "x \<noteq> NaN \<Longrightarrow> fneg x \<noteq> NaN"
  by (cases x) auto

lemma fneg_not_zero: "\<not> is_zero x \<Longrightarrow> \<not> is_zero (fneg x)"
  by (cases x) (auto simp: is_zero_def)

lemma abs_val_not_neg: "x \<noteq> NaN \<Longrightarrow> \<not> flt (abs_val x) (Fin 0)"
  by (cases x) (auto simp: abs_val_def flt_def)

section \<open>signFlip: the scan of one column\<close>

lemma signFlip_scan_body_eq:
  "signFlip_scan_body inout i (mx, mi) =
     (if flt mx (abs_val (inout ! i)) then (abs_val (inout ! i), i) else (mx, mi))"
  by (simp add: signFlip_scan_body_def abs_val_def fgt_def Let_def)

lemma signFlip_scan_empty: "signFlip_scan inout d_i d_i = (Fin 0, 0)"
  by (simp add: signFlip_scan_def)

lemma signFlip_scan_Suc:
  "d_i \<le> j \<Longrightarrow>
   signFlip_scan inout d_i (Suc j) = signFlip_scan_body inout j (signFlip_scan inout d_i j)"
  by (simp add: signFlip_scan_def)

text \<open>A scan that meets zeros only never leaves its initial state \<open>(0.0, 0)\<close>.\<close>

lemma scan_all_zero:
  assumes "\<forall>i \<in> set ixs. is_zero (inout ! i)"
  shows "fold (signFlip_scan_body inout) ixs (Fin 0, 0) = (Fin 0, 0)"
  using assms
proof (induction ixs)
  case Nil
  then show ?case by simp
next
  case (Cons a ixs)
  then have "is_zero (inout ! a)" by simp
  then have "\<not> flt (Fin 0) (abs_val (inout ! a))"
    by (auto simp: is_zero_def abs_val_def flt_def)
  with Cons show ?case by (simp add: signFlip_scan_body_eq)
qed

lemma scan_inv_step:
  assumes inv: "scan_inv inout d_i j r" and j: "d_i \<le> j" and nn: "inout ! j \<noteq> NaN"
  shows "scan_inv inout d_i (Suc j) (signFlip_scan_body inout j r)"
proof -
  obtain mx mi where r: "r = (mx, mi)" by (cases r)
  let ?v = "abs_val (inout ! j)"
  have v: "?v \<noteq> NaN" "fle (Fin 0) ?v"
    using nn by (simp_all add: abs_val_not_NaN abs_val_nonneg)
  from inv r have mx0: "fle (Fin 0) mx"
    and le: "\<And>i. d_i \<le> i \<Longrightarrow> i < j \<Longrightarrow> fle (abs_val (inout ! i)) mx"
    by (simp_all add: scan_inv_def)
  from mx0 have mxn: "mx \<noteq> NaN" by (auto simp: fle_def)
  show ?thesis
  proof (cases "flt mx ?v")
    case True
    have "fle (abs_val (inout ! i)) ?v" if "d_i \<le> i" "i < Suc j" for i
    proof (cases "i = j")
      case True
      then show ?thesis using v by (simp add: fle_refl)
    next
      case False
      with that have "i < j" by simp
      with le that \<open>flt mx ?v\<close> show ?thesis by (blast intro: fle_flt_trans flt_imp_fle)
    qed
    moreover have "flt (abs_val (inout ! i)) ?v" if "d_i \<le> i" "i < j" for i
      using le that True by (blast intro: fle_flt_trans)
    moreover have "flt (Fin 0) ?v" using mx0 True by (rule fle_flt_trans)
    ultimately show ?thesis using j v by (simp add: scan_inv_def r signFlip_scan_body_eq True)
  next
    case False
    then have vle: "fle ?v mx" using v mxn by (simp add: not_flt_fle)
    have "fle (abs_val (inout ! i)) mx" if "d_i \<le> i" "i < Suc j" for i
      using that le vle by (cases "i = j") auto
    then show ?thesis using inv False by (auto simp: scan_inv_def r signFlip_scan_body_eq)
  qed
qed

lemma scan_inv_holds:
  assumes "\<forall>i. d_i \<le> i \<and> i < d_i + n \<longrightarrow> inout ! i \<noteq> NaN"
  shows "scan_inv inout d_i (d_i + n) (signFlip_scan inout d_i (d_i + n))"
  using assms
proof (induction n)
  case 0
  show ?case by (auto simp: signFlip_scan_empty scan_inv_def fle_def flt_def)
next
  case (Suc n)
  then have "scan_inv inout d_i (d_i + n) (signFlip_scan inout d_i (d_i + n))" by simp
  moreover have "inout ! (d_i + n) \<noteq> NaN" using Suc.prems by simp
  ultimately show ?case
    using scan_inv_step [of inout d_i "d_i + n"] by (simp add: signFlip_scan_Suc)
qed

section \<open>signFlip: one column\<close>

lemma signFlip_negate_length: "length (signFlip_negate inout d_i end_i) = length inout"
  unfolding signFlip_negate_def by (rule fold_pointwise_length) simp

lemma signFlip_negate_nth:
  assumes "j < length inout"
  shows "signFlip_negate inout d_i end_i ! j =
    (if d_i \<le> j \<and> j < end_i then fneg (inout ! j) else inout ! j)"
  unfolding signFlip_negate_def
  using fold_pointwise_nth [where body = "\<lambda>i b. b[i := fneg (b ! i)]" and g = "\<lambda>i x. fneg x"
      and ixs = "[d_i..<end_i]" and s = inout and j = j] assms
  by simp

lemma signFlip_col_test:
  "signFlip_col inout m idx =
     (if flt (inout ! snd (signFlip_scan inout (idx * m) (idx * m + m))) (Fin 0)
      then signFlip_negate inout (idx * m) (idx * m + m) else inout)"
  by (simp add: signFlip_col_def Let_def)

lemma signFlip_col_length: "length (signFlip_col inout m idx) = length inout"
  by (simp add: signFlip_col_test signFlip_negate_length)

text \<open>The body of a column writes no position outside the column.\<close>

lemma signFlip_col_frame:
  assumes "i < length inout" and "\<not> in_col m idx i"
  shows "signFlip_col inout m idx ! i = inout ! i"
  using assms by (auto simp: signFlip_col_test signFlip_negate_nth in_col_def)

text \<open>
  A column without NaN that has a non-zero element: \<open>max_index\<close> is the first position
  \<open>k\<close> of the column whose absolute value is the largest of the column, and the column
  is negated exactly when the element at \<open>k\<close> is negative.
\<close>

lemma signFlip_col_nonzero:
  assumes nn: "\<forall>i. in_col m idx i \<longrightarrow> inout ! i \<noteq> NaN"
    and nz: "\<exists>i. in_col m idx i \<and> \<not> is_zero (inout ! i)"
  shows "\<exists>k. in_col m idx k
      \<and> snd (signFlip_scan inout (idx * m) (idx * m + m)) = k
      \<and> (\<forall>i. in_col m idx i \<longrightarrow> fle (abs_val (inout ! i)) (abs_val (inout ! k)))
      \<and> (\<forall>i. in_col m idx i \<and> i < k \<longrightarrow> flt (abs_val (inout ! i)) (abs_val (inout ! k)))
      \<and> signFlip_col inout m idx =
          (if flt (inout ! k) (Fin 0) then signFlip_negate inout (idx * m) (idx * m + m)
           else inout)"
proof -
  let ?r = "signFlip_scan inout (idx * m) (idx * m + m)"
  have inv: "scan_inv inout (idx * m) (idx * m + m) ?r"
    using nn by (intro scan_inv_holds) (simp add: in_col_def)
  from nz obtain i0 where i0: "in_col m idx i0" "\<not> is_zero (inout ! i0)" by blast
  with nn have "flt (Fin 0) (abs_val (inout ! i0))" by (simp add: abs_val_pos)
  moreover from inv i0 have "fle (abs_val (inout ! i0)) (fst ?r)"
    by (simp add: scan_inv_def in_col_def)
  ultimately have pos: "flt (Fin 0) (fst ?r)"
    by (auto simp: flt_def fle_def)
  with inv have k: "idx * m \<le> snd ?r" "snd ?r < idx * m + m" "abs_val (inout ! snd ?r) = fst ?r"
    and before: "\<forall>i. idx * m \<le> i \<and> i < snd ?r \<longrightarrow> flt (abs_val (inout ! i)) (fst ?r)"
    and all: "\<forall>i. idx * m \<le> i \<and> i < idx * m + m \<longrightarrow> fle (abs_val (inout ! i)) (fst ?r)"
    by (simp_all add: scan_inv_def)
  with signFlip_col_test [of inout m idx] show ?thesis
    by (intro exI [of _ "snd ?r"]) (simp add: in_col_def)
qed

lemma in_col_div: "in_col m c i \<Longrightarrow> i div m = c"
  unfolding in_col_def by (intro div_nat_eqI) (simp_all add: mult.commute)

lemma in_col_bound: "c < n_cols \<Longrightarrow> in_col m c i \<Longrightarrow> i < m * n_cols"
proof -
  assume "c < n_cols" and "in_col m c i"
  then have "i < c * m + m" and "Suc c \<le> n_cols" by (simp_all add: in_col_def)
  moreover from this have "Suc c * m \<le> n_cols * m" by (intro mult_le_mono1)
  ultimately show ?thesis by (simp add: mult.commute)
qed

lemma in_col_div_self: "0 < m \<Longrightarrow> in_col m (j div m) j"
  unfolding in_col_def
  by (metis add.commute div_mult_mod_eq le_add1 mod_less_divisor nat_add_left_cancel_less)

lemma signFlip_scan_cong:
  assumes "\<forall>i. d_i \<le> i \<and> i < end_i \<longrightarrow> a ! i = b ! i"
  shows "signFlip_scan a d_i end_i = signFlip_scan b d_i end_i"
  unfolding signFlip_scan_def
  using assms by (intro fold_cong) (auto simp: signFlip_scan_body_def)

lemma first_max_abs_scan:
  assumes "\<forall>i. in_col m idx i \<longrightarrow> inout ! i \<noteq> NaN"
    and "\<exists>i. in_col m idx i \<and> \<not> is_zero (inout ! i)"
  shows "first_max_abs inout m idx (snd (signFlip_scan inout (idx * m) (idx * m + m)))"
  using signFlip_col_nonzero [OF assms] by (auto simp: first_max_abs_def)

lemma first_max_abs_unique:
  assumes "first_max_abs a m c k1" and "first_max_abs a m c k2"
  shows "k1 = k2"
proof -
  have "\<not> k1 < k2" if "first_max_abs a m c k1" "first_max_abs a m c k2" for k1 k2
  proof
    assume "k1 < k2"
    with that have "flt (abs_val (a ! k1)) (abs_val (a ! k2))"
      and "fle (abs_val (a ! k2)) (abs_val (a ! k1))"
      by (auto simp: first_max_abs_def)
    then show False by (auto simp: flt_def fle_def)
  qed
  from this [of k1 k2] this [of k2 k1] assms show ?thesis by auto
qed

lemma abs_val_fneg_flt:
  "x \<noteq> NaN \<Longrightarrow> y \<noteq> NaN \<Longrightarrow>
   flt (abs_val (fneg x)) (abs_val (fneg y)) = flt (abs_val x) (abs_val y)"
  by (cases x; cases y) (auto simp: abs_val_def flt_def)

lemma abs_val_fneg_fle:
  "x \<noteq> NaN \<Longrightarrow> y \<noteq> NaN \<Longrightarrow>
   fle (abs_val (fneg x)) (abs_val (fneg y)) = fle (abs_val x) (abs_val y)"
  by (cases x; cases y) (auto simp: abs_val_def flt_def fle_def)

lemma first_max_abs_same:
  assumes "\<forall>i. in_col m c i \<longrightarrow> b ! i = a ! i"
  shows "first_max_abs b m c k = first_max_abs a m c k"
  using assms by (auto simp: first_max_abs_def)

lemma first_max_abs_negated:
  assumes "\<forall>i. in_col m c i \<longrightarrow> b ! i = fneg (a ! i)"
    and "\<forall>i. in_col m c i \<longrightarrow> a ! i \<noteq> NaN"
  shows "first_max_abs b m c k = first_max_abs a m c k"
  using assms by (auto simp: first_max_abs_def abs_val_fneg_flt abs_val_fneg_fle)

text \<open>A column body writes its own column only; so does a run of column bodies.\<close>

lemma fold_signFlip_col_length:
  "length (fold (\<lambda>idx b. signFlip_col b m idx) cs b) = length b"
  by (rule fold_pointwise_length) (rule signFlip_col_length)

lemma fold_signFlip_col_frame:
  assumes "j < length b" and "\<forall>c \<in> set cs. \<not> in_col m c j"
  shows "fold (\<lambda>idx b. signFlip_col b m idx) cs b ! j = b ! j"
  using assms
proof (induction cs arbitrary: b)
  case Nil
  then show ?case by simp
next
  case (Cons c cs)
  then have "fold (\<lambda>idx b. signFlip_col b m idx) cs (signFlip_col b m c) ! j = signFlip_col b m c ! j"
    by (simp add: signFlip_col_length)
  with Cons.prems show ?case by (simp add: signFlip_col_frame)
qed

text \<open>The body of an all-zero column tests \<^verbatim>\<open>inout[0]\<close>.\<close>

lemma signFlip_col_zero_column:
  assumes "\<forall>i. in_col m idx i \<longrightarrow> is_zero (inout ! i)"
  shows "signFlip_col inout m idx =
     (if flt (inout ! 0) (Fin 0) then signFlip_negate inout (idx * m) (idx * m + m) else inout)"
proof -
  have "signFlip_scan inout (idx * m) (idx * m + m) = (Fin 0, 0)"
    unfolding signFlip_scan_def using assms by (intro scan_all_zero) (simp add: in_col_def)
  then show ?thesis by (simp add: signFlip_col_test)
qed

text \<open>
  Claim C10, as amended: in \<^verbatim>\<open>signFlip\<close> the running maximum starts at \<open>0.0\<close> with
  \<open>max_index = 0\<close>, and only a strictly greater absolute value updates it. So for a
  column whose elements are all zero the scan ends with \<open>max_index = 0\<close>, whichever
  column it is; the flip test of that column reads \<^verbatim>\<open>inout[0]\<close> as it is when the body
  of the column runs, and when that value is negative the column is negated: each of
  its zeros is replaced by the zero of the other sign. The value read need not be the
  first element the call was given, since the body of column 0 may have negated it.
\<close>

theorem signFlip_zero_column_reads_first_element:
  assumes "\<forall>i. in_col m idx i \<longrightarrow> is_zero (inout ! i)"
    and "idx * m + m \<le> length inout"
  shows "signFlip_scan inout (idx * m) (idx * m + m) = (Fin 0, 0)
       \<and> signFlip_col inout m idx =
           (if flt (inout ! 0) (Fin 0) then signFlip_negate inout (idx * m) (idx * m + m)
            else inout)
       \<and> (flt (inout ! 0) (Fin 0) \<longrightarrow>
            (\<forall>i. in_col m idx i \<longrightarrow>
               signFlip_col inout m idx ! i = fneg (inout ! i)
               \<and> is_zero (signFlip_col inout m idx ! i)
               \<and> signFlip_col inout m idx ! i \<noteq> inout ! i))"
proof -
  have scan: "signFlip_scan inout (idx * m) (idx * m + m) = (Fin 0, 0)"
    unfolding signFlip_scan_def using assms(1) by (intro scan_all_zero) (simp add: in_col_def)
  then have col: "signFlip_col inout m idx =
      (if flt (inout ! 0) (Fin 0) then signFlip_negate inout (idx * m) (idx * m + m) else inout)"
    by (simp add: signFlip_col_test)
  have "signFlip_col inout m idx ! i = fneg (inout ! i)
      \<and> is_zero (signFlip_col inout m idx ! i)
      \<and> signFlip_col inout m idx ! i \<noteq> inout ! i"
    if "flt (inout ! 0) (Fin 0)" and "in_col m idx i" for i
  proof -
    from that assms(2) have "i < length inout" by (simp add: in_col_def)
    with that have "signFlip_col inout m idx ! i = fneg (inout ! i)"
      by (simp add: col signFlip_negate_nth in_col_def)
    moreover from that assms(1) have "is_zero (inout ! i)" by blast
    ultimately show ?thesis using fneg_zero by simp
  qed
  with scan col show ?thesis by blast
qed

theorem signFlip_zero_column_reads_first_element_witness:
  "is_zero ([Fin (- 1), Fin 5, Fin 0, Fin 0] ! 2) \<and> is_zero ([Fin (- 1), Fin 5, Fin 0, Fin 0] ! 3)
   \<and> 1 * 2 + 2 \<le> length [Fin (- 1), Fin 5, Fin 0, Fin 0]
   \<and> flt ([Fin (- 1), Fin 5, Fin 0, Fin 0] ! 0) (Fin 0)
   \<and> signFlip_scan [Fin (- 1), Fin 5, Fin 0, Fin 0] 2 4 = (Fin 0, 0)
   \<and> signFlip_col [Fin (- 1), Fin 5, Fin 0, Fin 0] 2 1 ! 2 = NegZero
   \<and> signFlip_col [Fin (- 1), Fin 5, Fin 0, Fin 0] 2 1 ! 3 = NegZero"
proof -
  let ?X = "[Fin (- 1), Fin 5, Fin 0, Fin 0]"
  have z: "\<forall>i. in_col 2 1 i \<longrightarrow> is_zero (?X ! i)"
  proof (intro allI impI)
    fix i :: nat assume "in_col 2 1 i"
    then have "i = 2 \<or> i = 3" by (auto simp: in_col_def)
    then show "is_zero (?X ! i)" by (auto simp: is_zero_def)
  qed
  have l: "1 * 2 + 2 \<le> length ?X" by simp
  have f: "flt (?X ! 0) (Fin 0)" by (simp add: float_simps)
  note t = signFlip_zero_column_reads_first_element [OF z l]
  from t have s: "signFlip_scan ?X 2 4 = (Fin 0, 0)" by simp
  from t f have "\<forall>i. in_col 2 1 i \<longrightarrow> signFlip_col ?X 2 1 ! i = fneg (?X ! i)"
    by blast
  moreover have "in_col 2 1 2" "in_col 2 1 3" by (simp_all add: in_col_def)
  ultimately have "signFlip_col ?X 2 1 ! 2 = fneg (?X ! 2)" "signFlip_col ?X 2 1 ! 3 = fneg (?X ! 3)"
    by blast+
  with s f show ?thesis by (simp add: is_zero_def)
qed

section \<open>signFlip: whole matrices\<close>

lemmas scan_eval = signFlip_scan_def signFlip_scan_body_def float_simps list_eval Let_def

text \<open>
  The 2 by 2 matrix with the columns \<open>[-1, 5]\<close> and \<open>[0, 0]\<close>, and the same matrix with
  the zeros of the second column negated.
\<close>

lemma scan_zero_col0: "signFlip_scan [Fin (- 1), Fin 5, Fin 0, Fin 0] 0 2 = (Fin 5, 1)"
  by (simp add: scan_eval)

lemma scan_zero_col1: "signFlip_scan [Fin (- 1), Fin 5, Fin 0, Fin 0] 2 4 = (Fin 0, 0)"
  by (simp add: scan_eval)

lemma scan_negzero_col0: "signFlip_scan [Fin (- 1), Fin 5, NegZero, NegZero] 0 2 = (Fin 5, 1)"
  by (simp add: scan_eval)

lemma scan_negzero_col1: "signFlip_scan [Fin (- 1), Fin 5, NegZero, NegZero] 2 4 = (Fin 0, 0)"
  by (simp add: scan_eval)

lemma col_zero_col0:
  "signFlip_col [Fin (- 1), Fin 5, Fin 0, Fin 0] 2 0 = [Fin (- 1), Fin 5, Fin 0, Fin 0]"
  by (simp add: signFlip_col_test scan_zero_col0 float_simps del: add_2_eq_Suc add_2_eq_Suc')

lemma col_zero_col1:
  "signFlip_col [Fin (- 1), Fin 5, Fin 0, Fin 0] 2 1 = [Fin (- 1), Fin 5, NegZero, NegZero]"
  by (simp add: signFlip_col_test scan_zero_col1 signFlip_negate_def float_simps list_eval)

lemma col_negzero_col0:
  "signFlip_col [Fin (- 1), Fin 5, NegZero, NegZero] 2 0 = [Fin (- 1), Fin 5, NegZero, NegZero]"
  by (simp add: signFlip_col_test scan_negzero_col0 float_simps del: add_2_eq_Suc add_2_eq_Suc')

lemma col_negzero_col1:
  "signFlip_col [Fin (- 1), Fin 5, NegZero, NegZero] 2 1 = [Fin (- 1), Fin 5, Fin 0, Fin 0]"
  by (simp add: signFlip_col_test scan_negzero_col1 signFlip_negate_def float_simps list_eval)

text \<open>
  The scenario of the specification: on the column-major 3 by 2 matrix with the columns
  \<open>[1, -5, 3]\<close> and \<open>[2, 1, -0.5]\<close> the first column is negated and the second stays.
\<close>

lemma signFlip_scenario:
  "signFlip [Fin 1, Fin (- 5), Fin 3, Fin 2, Fin 1, Fin (- (1 / 2))] 3 2 =
     [Fin (- 1), Fin 5, Fin (- 3), Fin 2, Fin 1, Fin (- (1 / 2))]"
proof -
  let ?M = "[Fin 1, Fin (- 5), Fin 3, Fin 2, Fin 1, Fin (- (1 / 2))]"
  let ?M' = "[Fin (- 1), Fin 5, Fin (- 3), Fin 2, Fin 1, Fin (- (1 / 2))]"
  have s0: "signFlip_scan ?M 0 3 = (Fin 5, 1)" by (simp add: scan_eval)
  have s1: "signFlip_scan ?M' 3 6 = (Fin 2, 3)" by (simp add: scan_eval)
  have c0: "signFlip_col ?M 3 0 = ?M'"
    by (simp add: signFlip_col_test s0 signFlip_negate_def float_simps list_eval)
  have c1: "signFlip_col ?M' 3 1 = ?M'"
    by (simp add: signFlip_col_test s1 float_simps)
  from c0 c1 show ?thesis by (simp add: signFlip_def for_each_eval)
qed

text \<open>
  The result can depend on the order of the column bodies: on the 1 by 2 matrix
  \<open>[-1, 0]\<close> the zero column is negated when its body runs before that of column 0,
  and not when it runs after it.
\<close>

lemma signFlip_order_dependent:
  "signFlip_order [0, 1] [Fin (- 1), Fin 0] 1 = [Fin 1, Fin 0]
   \<and> signFlip_order [1, 0] [Fin (- 1), Fin 0] 1 = [Fin 1, NegZero]"
proof -
  have a: "signFlip_col [Fin (- 1), Fin 0] 1 0 = [Fin 1, Fin 0]"
    by (simp add: signFlip_col_test signFlip_negate_def scan_eval)
  have b: "signFlip_col [Fin 1, Fin 0] 1 1 = [Fin 1, Fin 0]"
    by (simp add: signFlip_col_test signFlip_negate_def scan_eval)
  have c: "signFlip_col [Fin (- 1), Fin 0] 1 1 = [Fin (- 1), NegZero]"
    by (simp add: signFlip_col_test signFlip_negate_def scan_eval)
  have d: "signFlip_col [Fin (- 1), NegZero] 1 0 = [Fin 1, NegZero]"
    by (simp add: signFlip_col_test signFlip_negate_def scan_eval)
  from a b c d show ?thesis by (simp add: signFlip_order_def)
qed

text \<open>
  In a call of \<^verbatim>\<open>signFlip\<close> (columns in index order) the element that the body of an
  all-zero column \<open>idx > 0\<close> reads is \<^verbatim>\<open>inout[0]\<close> as the body of column 0 has left it.
\<close>

lemma signFlip_zero_column_whole_call:
  assumes m: "0 < n_rows" and idx: "0 < idx" "idx < n_cols"
    and len: "n_rows * n_cols \<le> length inout"
    and zero: "\<forall>i. in_col n_rows idx i \<longrightarrow> is_zero (inout ! i)"
    and i: "in_col n_rows idx i"
  shows "signFlip inout n_rows n_cols ! i =
     (if flt (signFlip_col inout n_rows 0 ! 0) (Fin 0) then fneg (inout ! i) else inout ! i)"
proof -
  let ?f = "\<lambda>idx b. signFlip_col b n_rows idx"
  let ?first = "signFlip_col inout n_rows 0"
  let ?r = "fold ?f [Suc 0..<idx] ?first"
  let ?r' = "signFlip_col ?r n_rows idx"
  have il: "\<And>j. in_col n_rows idx j \<Longrightarrow> j < length inout"
    using in_col_bound [OF idx(2)] len by fastforce
  have l0: "0 < length inout" using il [OF i] by (cases inout) simp_all
  have other: "\<not> in_col n_rows c j" if "c \<noteq> idx" "in_col n_rows idx j" for c j
    using that in_col_div by blast
  have "[0..<n_cols] = [0..<idx] @ [idx..<n_cols]"
    using upt_add_eq_append [of 0 idx "n_cols - idx"] idx by simp
  moreover have "[0..<idx] = 0 # [Suc 0..<idx]" using idx by (simp add: upt_conv_Cons)
  moreover have "[idx..<n_cols] = idx # [Suc idx..<n_cols]" using idx by (simp add: upt_conv_Cons)
  ultimately have split: "[0..<n_cols] = 0 # [Suc 0..<idx] @ idx # [Suc idx..<n_cols]"
    by simp
  then have res: "signFlip inout n_rows n_cols = fold ?f [Suc idx..<n_cols] ?r'"
    by (simp add: signFlip_def for_each_def)
  have rlen: "length ?r = length inout"
    by (simp add: fold_signFlip_col_length signFlip_col_length)
  have r0: "?r ! 0 = ?first ! 0"
    using l0 m by (intro fold_signFlip_col_frame) (auto simp: signFlip_col_length in_col_def)
  have rcol: "?r ! j = inout ! j" if "in_col n_rows idx j" for j
  proof -
    have "?r ! j = ?first ! j"
      using il [OF that] other [OF _ that]
      by (intro fold_signFlip_col_frame) (auto simp: signFlip_col_length)
    also have "\<dots> = inout ! j"
      using il [OF that] other [OF _ that, of 0] idx by (intro signFlip_col_frame) auto
    finally show ?thesis .
  qed
  then have "\<forall>j. in_col n_rows idx j \<longrightarrow> is_zero (?r ! j)" using zero by simp
  then have "?r' = (if flt (?r ! 0) (Fin 0)
      then signFlip_negate ?r (idx * n_rows) (idx * n_rows + n_rows) else ?r)"
    by (rule signFlip_col_zero_column)
  then have "?r' ! i = (if flt (?first ! 0) (Fin 0) then fneg (inout ! i) else inout ! i)"
    using i il [OF i] rcol [OF i] by (simp add: r0 signFlip_negate_nth rlen in_col_def)
  moreover have "fold ?f [Suc idx..<n_cols] ?r' ! i = ?r' ! i"
    using il [OF i] other [OF _ i]
    by (intro fold_signFlip_col_frame) (auto simp: signFlip_col_length rlen)
  ultimately show ?thesis by (simp add: res)
qed

text \<open>
  Claim C10 as stated fails: it says that an all-zero column is negated whenever the
  first element of the matrix is negative. In the 1 by 2 matrix \<open>[-1, 0]\<close> the second
  column is all zero and the first element is negative, but the call leaves the zero
  as it is: the body of column 0 has made the first element positive before the body
  of column 1 reads it.
\<close>

theorem signFlip_zero_column_kept_counterexample:
  "is_zero ([Fin (- 1), Fin 0] ! 1) \<and> flt ([Fin (- 1), Fin 0] ! 0) (Fin 0)
   \<and> signFlip [Fin (- 1), Fin 0] 1 2 = [Fin 1, Fin 0]
   \<and> signFlip [Fin (- 1), Fin 0] 1 2 ! 1 \<noteq> fneg ([Fin (- 1), Fin 0] ! 1)"
proof -
  have a: "signFlip_col [Fin (- 1), Fin 0] 1 0 = [Fin 1, Fin 0]"
    by (simp add: signFlip_col_test signFlip_negate_def scan_eval)
  have b: "signFlip_col [Fin 1, Fin 0] 1 1 = [Fin 1, Fin 0]"
    by (simp add: signFlip_col_test signFlip_negate_def scan_eval)
  from a b have "signFlip [Fin (- 1), Fin 0] 1 2 = [Fin 1, Fin 0]"
    by (simp add: signFlip_def for_each_eval)
  then show ?thesis by (simp add: is_zero_def float_simps)
qed

text \<open>
  Matrices without NaN in which every column has a non-zero element. There the body of
  a column reads and writes its own column only, \<^verbatim>\<open>signFlip\<close> negates exactly the
  columns whose earliest element of largest absolute value is negative, and a second
  call changes nothing.
\<close>

lemma signFlip_length: "length (signFlip inout n_rows n_cols) = length inout"
  unfolding signFlip_def Let_def by (rule for_each_length) (rule signFlip_col_length)

lemma signFlip_nonzero_columns_aux:
  assumes len: "n_cols * m \<le> length inout"
    and nn: "\<forall>i < n_cols * m. inout ! i \<noteq> NaN"
    and nz: "\<forall>c < n_cols. \<exists>i. in_col m c i \<and> \<not> is_zero (inout ! i)"
    and n: "n \<le> n_cols"
  shows "length (for_each n (\<lambda>idx b. signFlip_col b m idx) inout) = length inout
    \<and> (\<forall>j < length inout. for_each n (\<lambda>idx b. signFlip_col b m idx) inout ! j =
         (if j < n * m
          then (if flt (inout ! snd (signFlip_scan inout (j div m * m) (j div m * m + m))) (Fin 0)
                then fneg (inout ! j) else inout ! j)
          else inout ! j))"
  using n
proof (induction n)
  case 0
  show ?case by (simp add: for_each_0)
next
  case (Suc n)
  let ?r = "for_each n (\<lambda>idx b. signFlip_col b m idx) inout"
  let ?K = "\<lambda>c. snd (signFlip_scan inout (c * m) (c * m + m))"
  let ?F = "\<lambda>j. if flt (inout ! ?K (j div m)) (Fin 0) then fneg (inout ! j) else inout ! j"
  from Suc have rl: "length ?r = length inout"
    and rn: "\<And>j. j < length inout \<Longrightarrow> ?r ! j = (if j < n * m then ?F j else inout ! j)"
    by simp_all
  from Suc.prems have nc: "n < n_cols" by simp
  then have "n * m + m \<le> n_cols * m"
    by (metis Suc_leI mult_Suc mult_le_mono1 add.commute)
  with len have bound: "n * m + m \<le> length inout" by simp
  have same: "\<forall>i. n * m \<le> i \<and> i < n * m + m \<longrightarrow> ?r ! i = inout ! i"
    using rn bound by simp
  then have scan: "signFlip_scan ?r (n * m) (n * m + m) = signFlip_scan inout (n * m) (n * m + m)"
    by (rule signFlip_scan_cong)
  have "\<forall>i. in_col m n i \<longrightarrow> inout ! i \<noteq> NaN"
    using nn \<open>n * m + m \<le> n_cols * m\<close> by (simp add: in_col_def)
  moreover have "\<exists>i. in_col m n i \<and> \<not> is_zero (inout ! i)" using nz nc by simp
  ultimately have "in_col m n (?K n)"
    using signFlip_col_nonzero [of m n inout] by blast
  then have k: "n * m \<le> ?K n" "?K n < n * m + m" by (simp_all add: in_col_def)
  with same have rk: "?r ! ?K n = inout ! ?K n" by simp
  have col: "signFlip_col ?r m n =
      (if flt (inout ! ?K n) (Fin 0) then signFlip_negate ?r (n * m) (n * m + m) else ?r)"
    using signFlip_col_test [of ?r m n] by (simp only: scan rk)
  have "signFlip_col ?r m n ! j = (if j < Suc n * m then ?F j else inout ! j)"
    if j: "j < length inout" for j
  proof (cases "n * m \<le> j \<and> j < n * m + m")
    case True
    then have "j div m = n" using in_col_div [of m n j] by (simp add: in_col_def)
    with True j show ?thesis by (simp add: col signFlip_negate_nth rl rn)
  next
    case False
    with j have "signFlip_col ?r m n ! j = ?r ! j"
      by (auto simp: col signFlip_negate_nth rl)
    with False j show ?thesis by (auto simp: rn)
  qed
  then show ?case by (simp add: for_each_Suc signFlip_col_length rl)
qed

lemma signFlip_nonzero_columns:
  assumes "n_rows * n_cols \<le> length inout"
    and "\<forall>i < n_rows * n_cols. inout ! i \<noteq> NaN"
    and "\<forall>c < n_cols. \<exists>i. in_col n_rows c i \<and> \<not> is_zero (inout ! i)"
    and "j < length inout"
  shows "signFlip inout n_rows n_cols ! j =
     (if j < n_rows * n_cols
      then (if flt (inout ! snd (signFlip_scan inout (j div n_rows * n_rows)
                                   (j div n_rows * n_rows + n_rows))) (Fin 0)
            then fneg (inout ! j) else inout ! j)
      else inout ! j)"
  using signFlip_nonzero_columns_aux [of n_cols n_rows inout n_cols] assms
  by (simp add: signFlip_def mult.commute)

lemma signFlip_idempotent_nonzero_columns:
  assumes len: "length inout = n_rows * n_cols"
    and nn: "\<forall>i < n_rows * n_cols. inout ! i \<noteq> NaN"
    and nz: "\<forall>c < n_cols. \<exists>i. in_col n_rows c i \<and> \<not> is_zero (inout ! i)"
  shows "signFlip (signFlip inout n_rows n_cols) n_rows n_cols = signFlip inout n_rows n_cols"
proof (rule nth_equalityI)
  let ?m = n_rows
  let ?M = "signFlip inout n_rows n_cols"
  let ?K = "\<lambda>a c. snd (signFlip_scan a (c * ?m) (c * ?m + ?m))"
  show "length (signFlip ?M n_rows n_cols) = length ?M" by (simp add: signFlip_length)
  have first: "\<And>j. j < n_rows * n_cols \<Longrightarrow> ?M ! j =
      (if flt (inout ! ?K inout (j div ?m)) (Fin 0) then fneg (inout ! j) else inout ! j)"
    using signFlip_nonzero_columns [OF _ nn nz] len by simp
  have col: "?M ! i = (if flt (inout ! ?K inout c) (Fin 0) then fneg (inout ! i) else inout ! i)"
    if "c < n_cols" "in_col ?m c i" for c i
    using that first [of i] in_col_bound [of c n_cols ?m i] in_col_div [of ?m c i] by simp
  have nn_col: "\<forall>i. in_col ?m c i \<longrightarrow> inout ! i \<noteq> NaN" if "c < n_cols" for c
    using nn that in_col_bound [of c n_cols ?m] by blast
  have nn': "\<forall>i < n_rows * n_cols. ?M ! i \<noteq> NaN"
    using first nn by (simp add: fneg_not_NaN)
  have nz': "\<forall>c < n_cols. \<exists>i. in_col ?m c i \<and> \<not> is_zero (?M ! i)"
  proof (intro allI impI)
    fix c assume c: "c < n_cols"
    with nz obtain i where "in_col ?m c i" "\<not> is_zero (inout ! i)" by blast
    with c show "\<exists>i. in_col ?m c i \<and> \<not> is_zero (?M ! i)"
      by (intro exI [of _ i]) (simp add: col fneg_not_zero)
  qed
  have same_k: "?K ?M c = ?K inout c" and nonneg: "\<not> flt (?M ! ?K inout c) (Fin 0)"
    if c: "c < n_cols" for c
  proof -
    have a: "first_max_abs inout ?m c (?K inout c)"
      using nn_col [OF c] nz c by (intro first_max_abs_scan) simp_all
    have "\<forall>i. in_col ?m c i \<longrightarrow> ?M ! i \<noteq> NaN"
      using nn' c in_col_bound [of c n_cols ?m] by blast
    then have b: "first_max_abs ?M ?m c (?K ?M c)"
      using nz' c by (intro first_max_abs_scan) simp_all
    have "first_max_abs ?M ?m c k = first_max_abs inout ?m c k" for k
    proof (cases "flt (inout ! ?K inout c) (Fin 0)")
      case True
      with c have "\<forall>i. in_col ?m c i \<longrightarrow> ?M ! i = fneg (inout ! i)" by (simp add: col)
      then show ?thesis using nn_col [OF c] by (rule first_max_abs_negated)
    next
      case False
      with c have "\<forall>i. in_col ?m c i \<longrightarrow> ?M ! i = inout ! i" by (simp add: col)
      then show ?thesis by (rule first_max_abs_same)
    qed
    with a b show "?K ?M c = ?K inout c" by (auto intro: first_max_abs_unique)
    from a have k: "in_col ?m c (?K inout c)" by (simp add: first_max_abs_def)
    with c have "?M ! ?K inout c = abs_val (inout ! ?K inout c)"
      by (simp add: col abs_val_def)
    moreover from k nn_col [OF c] have "inout ! ?K inout c \<noteq> NaN" by blast
    ultimately show "\<not> flt (?M ! ?K inout c) (Fin 0)" by (simp add: abs_val_not_neg)
  qed
  fix j assume "j < length (signFlip ?M n_rows n_cols)"
  then have j: "j < n_rows * n_cols" by (simp add: signFlip_length len)
  then have "0 < ?m" and "j div ?m < n_cols"
    by (auto simp: less_mult_imp_div_less mult.commute intro: Nat.gr0I)
  have "signFlip ?M n_rows n_cols ! j =
      (if flt (?M ! ?K ?M (j div ?m)) (Fin 0) then fneg (?M ! j) else ?M ! j)"
    using signFlip_nonzero_columns [OF _ nn' nz', of j] j len by (simp add: signFlip_length)
  with same_k [OF \<open>j div ?m < n_cols\<close>] nonneg [OF \<open>j div ?m < n_cols\<close>]
  show "signFlip ?M n_rows n_cols ! j = ?M ! j" by simp
qed

text \<open>
  Claim C2 says that \<^verbatim>\<open>signFlip\<close> treats each column independently and leaves a column
  unchanged unless its element of largest absolute value is negative. On the 2 by 2
  matrix with the columns \<open>[-1, 5]\<close> and \<open>[0, 0]\<close> the second column has no negative
  element, and it does not stay: its zeros become \<open>-0.0\<close>, because the scan of a zero
  column leaves \<open>max_index = 0\<close> and the test reads the \<open>-1\<close> of the first column. The
  result is the same when the body of column 1 runs first. (Where no column is all
  zero and no element is NaN the code does what the claim says:
  \<open>signFlip_nonzero_columns\<close> with \<open>first_max_abs_scan\<close>.)
\<close>

theorem signFlip_zero_column_negated:
  "signFlip [Fin (- 1), Fin 5, Fin 0, Fin 0] 2 2 = [Fin (- 1), Fin 5, NegZero, NegZero]
   \<and> signFlip_order [1, 0] [Fin (- 1), Fin 5, Fin 0, Fin 0] 2 =
       [Fin (- 1), Fin 5, NegZero, NegZero]"
  using col_zero_col0 col_zero_col1 col_negzero_col0
  by (simp add: signFlip_def signFlip_order_def for_each_eval)

text \<open>
  Claim C4 says that a second call of \<^verbatim>\<open>signFlip\<close> changes no element. On the same
  matrix the first call turns the zeros of the second column into \<open>-0.0\<close> and the
  second call turns them back into \<open>0.0\<close>: the column changes at every call. (Where
  no column is all zero and no element is NaN a second call changes nothing:
  \<open>signFlip_idempotent_nonzero_columns\<close>.)
\<close>

theorem signFlip_second_call_changes:
  "signFlip [Fin (- 1), Fin 5, Fin 0, Fin 0] 2 2 = [Fin (- 1), Fin 5, NegZero, NegZero]
   \<and> signFlip [Fin (- 1), Fin 5, NegZero, NegZero] 2 2 = [Fin (- 1), Fin 5, Fin 0, Fin 0]"
  using col_zero_col0 col_zero_col1 col_negzero_col0 col_negzero_col1
  by (simp add: signFlip_def for_each_eval)

end
